theory Spec2Isabelle
  imports Complex_Main
begin

section \<open>Box-shaped transit fitting by grid search (Project_3/transit_model.py)\<close>

text \<open>
  The module has three functions: \<open>create_flux_model\<close>, \<open>chi2_test\<close> and
  \<open>fit_transit\<close>. They work on one-dimensional numpy arrays.

  Modelling decisions.
  \<^item> A finite float is the real number it denotes, and all inputs are finite. The time
    grid is an array of floats or of integers, because \<open>np.ones_like(time)\<close> takes its
    dtype from it; every other array is an array of floats.
  \<^item> The arithmetic of \<open>chi2_test\<close> (subtract, divide, square, add) can leave the finite
    numbers: a result at or beyond the float64 overflow threshold is \<open>inf\<close> or
    \<open>-inf\<close>, and numpy does not raise on a zero divisor, it yields \<open>inf\<close>, \<open>-inf\<close>
    or \<open>nan\<close>. The chi-square and \<open>best_chi2\<close>, which also starts at \<open>np.inf\<close>,
    are therefore of type \<open>npfloat\<close>, with the IEEE rules for the four operations and
    for comparison.
  \<^item> A result inside the float64 range is taken exact: the rounding to 53 significant
    bits is not modelled, here and in the arithmetic of the start-time grid. The theorems
    about \<open>fit_transit\<close> below use the chi-square of a candidate and the start-time grid
    only as the values the code computes, whatever they are.
  \<^item> What raises in Python is a value \<open>Inl e\<close> of the result: \<open>time.min()\<close> of an empty
    array, arithmetic on arrays whose shapes do not broadcast, \<open>np.arange\<close> with step 0.
  \<^item> \<open>None\<close> is \<open>None\<close> of an option type; \<open>count\<close> is a natural number.
\<close>

subsection \<open>Floats that may be infinite or not a number\<close>

datatype npfloat = Fin real | PInf | NInf | NaN

datatype exn = EmptyReduction | BroadcastMismatch | ArangeZeroStep

text \<open>
  The float64 result of an operation whose exact result is \<open>x\<close>: from
  \<open>2^1024 - 2^970\<close> on, half a unit in the last place above the largest float, it is
  infinite.
\<close>

definition overflow_threshold :: real where
  "overflow_threshold = 2 ^ 1024 - 2 ^ 970"

definition to_float :: "real \<Rightarrow> npfloat" where
  "to_float x =
     (if overflow_threshold \<le> x then PInf
      else if x \<le> - overflow_threshold then NInf
      else Fin x)"

text \<open>\<open>x - y\<close> on finite floats.\<close>

definition fsub :: "real \<Rightarrow> real \<Rightarrow> npfloat" where
  "fsub x y = to_float (x - y)"

text \<open>\<open>x / y\<close> for a finite divisor \<open>y\<close>; a zero divisor is taken as \<open>+0.0\<close>.\<close>

fun fdiv :: "npfloat \<Rightarrow> real \<Rightarrow> npfloat" where
  "fdiv (Fin x) y =
     (if y \<noteq> 0 then to_float (x / y)
      else if x = 0 then NaN
      else if 0 < x then PInf else NInf)"
| "fdiv PInf y = (if y < 0 then NInf else PInf)"
| "fdiv NInf y = (if y < 0 then PInf else NInf)"
| "fdiv NaN y = NaN"

text \<open>\<open>x ** 2\<close>.\<close>

fun fsquare :: "npfloat \<Rightarrow> npfloat" where
  "fsquare (Fin x) = to_float (x ^ 2)"
| "fsquare PInf = PInf"
| "fsquare NInf = PInf"
| "fsquare NaN = NaN"

text \<open>\<open>x + y\<close>.\<close>

fun fadd :: "npfloat \<Rightarrow> npfloat \<Rightarrow> npfloat" where
  "fadd (Fin x) (Fin y) = to_float (x + y)"
| "fadd NaN y = NaN"
| "fadd x NaN = NaN"
| "fadd PInf NInf = NaN"
| "fadd NInf PInf = NaN"
| "fadd PInf y = PInf"
| "fadd x PInf = PInf"
| "fadd NInf y = NInf"
| "fadd x NInf = NInf"

text \<open>\<open>x < y\<close>: false as soon as one side is \<open>nan\<close>.\<close>

fun fless :: "npfloat \<Rightarrow> npfloat \<Rightarrow> bool" where
  "fless NaN y = False"
| "fless x NaN = False"
| "fless (Fin x) (Fin y) = (x < y)"
| "fless (Fin x) PInf = True"
| "fless (Fin x) NInf = False"
| "fless PInf y = False"
| "fless NInf NInf = False"
| "fless NInf y = True"

text \<open>\<open>x <= y\<close>: it holds when \<open>x < y\<close> or both are the same number.\<close>

definition fle :: "npfloat \<Rightarrow> npfloat \<Rightarrow> bool" where
  "fle x y = (fless x y \<or> (x = y \<and> x \<noteq> NaN))"

text \<open>\<open>np.sum\<close> of a one-dimensional array; the sum of the empty array is \<open>0.0\<close>.\<close>

definition np_sum :: "npfloat list \<Rightarrow> npfloat" where
  "np_sum xs = foldl fadd (Fin 0) xs"

subsection \<open>Array operations\<close>

text \<open>A one-dimensional array with its dtype, and its elements as numbers.\<close>

datatype ndarray = FloatArray "real list" | IntArray "int list"

fun array_values :: "ndarray \<Rightarrow> real list" where
  "array_values (FloatArray xs) = xs"
| "array_values (IntArray ns) = map real_of_int ns"

text \<open>
  An elementwise binary operation on two one-dimensional arrays. numpy broadcasts an
  array of length 1 against any length and raises \<open>ValueError\<close> on any other
  difference in length.
\<close>

definition broadcast2 :: "('a \<Rightarrow> 'b \<Rightarrow> 'c) \<Rightarrow> 'a list \<Rightarrow> 'b list \<Rightarrow> exn + 'c list" where
  "broadcast2 f xs ys =
     (if length xs = length ys then Inr (map2 f xs ys)
      else if length xs = 1 then Inr (map (f (hd xs)) ys)
      else if length ys = 1 then Inr (map (\<lambda>x. f x (hd ys)) xs)
      else Inl BroadcastMismatch)"

text \<open>\<open>np.ones_like(time)\<close>: ones of the shape and of the dtype of \<open>time\<close>.\<close>

fun ones_like :: "ndarray \<Rightarrow> ndarray" where
  "ones_like (FloatArray xs) = FloatArray (replicate (length xs) 1)"
| "ones_like (IntArray ns) = IntArray (replicate (length ns) 1)"

text \<open>\<open>a & b\<close> on two boolean arrays of the same length.\<close>

definition mask_and :: "bool list \<Rightarrow> bool list \<Rightarrow> bool list" where
  "mask_and a b = map2 (\<and>) a b"

text \<open>
  A float stored into an array of 64-bit integers is cut off towards zero; outside the
  integer range the cast gives the least integer (the x86-64 convention).
\<close>

definition cast_int64 :: "real \<Rightarrow> int" where
  "cast_int64 v =
     (if - (2 ^ 63) < v \<and> v < 2 ^ 63 then (if 0 \<le> v then \<lfloor>v\<rfloor> else \<lceil>v\<rceil>)
      else - (2 ^ 63))"

text \<open>
  \<open>arr[mask] = v\<close> for a boolean mask as long as the array and a float \<open>v\<close>: the
  value is cast to the dtype of the array.
\<close>

fun masked_assign :: "ndarray \<Rightarrow> bool list \<Rightarrow> real \<Rightarrow> ndarray" where
  "masked_assign (FloatArray xs) msk v = FloatArray (map2 (\<lambda>x m. if m then v else x) xs msk)"
| "masked_assign (IntArray ns) msk v =
     IntArray (map2 (\<lambda>n m. if m then cast_int64 v else n) ns msk)"

text \<open>\<open>time.min()\<close> and \<open>time.max()\<close>: \<open>ValueError\<close> on an empty array.\<close>

definition array_min :: "ndarray \<Rightarrow> exn + real" where
  "array_min time =
     (case array_values time of [] \<Rightarrow> Inl EmptyReduction | x # xs \<Rightarrow> Inr (fold min xs x))"

definition array_max :: "ndarray \<Rightarrow> exn + real" where
  "array_max time =
     (case array_values time of [] \<Rightarrow> Inl EmptyReduction | x # xs \<Rightarrow> Inr (fold max xs x))"

text \<open>
  \<open>np.arange(start, stop, step)\<close>: \<open>ceil((stop - start) / step)\<close> values (none when
  that is not positive), the \<open>i\<close>-th being \<open>start + i * step\<close>; a zero step raises.
\<close>

definition arange_values :: "real \<Rightarrow> real \<Rightarrow> real \<Rightarrow> real list" where
  "arange_values start stop step =
     map (\<lambda>i. start + real i * step) [0 ..< nat \<lceil>(stop - start) / step\<rceil>]"

definition arange :: "real \<Rightarrow> real \<Rightarrow> real \<Rightarrow> exn + real list" where
  "arange start stop step =
     (if step = 0 then Inl ArangeZeroStep else Inr (arange_values start stop step))"

subsection \<open>The flux model and the chi-square\<close>

definition create_flux_model :: "ndarray \<Rightarrow> real \<Rightarrow> real \<Rightarrow> real \<Rightarrow> ndarray" where
  "create_flux_model time t_transit d_transit t1 =
     (let t2 = t1 + t_transit;
          flux_model = ones_like time;
          in_window = mask_and (map (\<lambda>t. t \<ge> t1) (array_values time))
                               (map (\<lambda>t. t \<le> t2) (array_values time))
      in masked_assign flux_model in_window (1 - d_transit))"

text \<open>\<open>sigma\<close> is a float or an array.\<close>

datatype sigma = Scalar real | PerPoint "real list"

text \<open>
  \<open>flux - flux_model\<close> is a float array also when the model is an integer array; the
  division by \<open>sigma\<close>, the squares and the sum work on the results of the step before.
\<close>

definition chi2_test :: "real list \<Rightarrow> ndarray \<Rightarrow> sigma \<Rightarrow> exn + npfloat" where
  "chi2_test flux flux_model sigma =
     (case broadcast2 fsub flux (array_values flux_model) of
        Inl e \<Rightarrow> Inl e
      | Inr diff \<Rightarrow>
          (case (case sigma of
                   Scalar s \<Rightarrow> Inr (map (\<lambda>x. fdiv x s) diff)
                 | PerPoint ss \<Rightarrow> broadcast2 fdiv diff ss) of
             Inl e \<Rightarrow> Inl e
           | Inr q \<Rightarrow> Inr (np_sum (map fsquare q))))"

subsection \<open>The grid search\<close>

text \<open>The running best fit and the counter: the local variables of \<open>fit_transit\<close>.\<close>

record fit_state =
  best_chi2 :: npfloat
  best_d :: "real option"
  best_T :: "real option"
  best_t1 :: "real option"
  best_model :: "ndarray option"
  count :: nat

definition init_state :: fit_state where
  "init_state =
     \<lparr>best_chi2 = PInf, best_d = None, best_T = None, best_t1 = None,
      best_model = None, count = 0\<rparr>"

text \<open>The innermost loop, \<open>for t1 in t1_grid\<close>; an exception of \<open>chi2_test\<close> leaves it.\<close>

fun t1_loop ::
  "ndarray \<Rightarrow> real list \<Rightarrow> sigma \<Rightarrow> real \<Rightarrow> real \<Rightarrow> real list \<Rightarrow> fit_state \<Rightarrow> exn + fit_state"
where
  "t1_loop time flux sigma T d [] st = Inr st"
| "t1_loop time flux sigma T d (t1 # t1_grid) st =
     (let st1 = st\<lparr>count := count st + 1\<rparr>;
          model = create_flux_model time T d t1
      in case chi2_test flux model sigma of
           Inl e \<Rightarrow> Inl e
         | Inr chi2 \<Rightarrow>
             t1_loop time flux sigma T d t1_grid
               (if fless chi2 (best_chi2 st1)
                then st1\<lparr>best_chi2 := chi2, best_d := Some d, best_T := Some T,
                         best_t1 := Some t1, best_model := Some model\<rparr>
                else st1))"

text \<open>The middle loop, \<open>for d in d_grid\<close>, with its \<open>continue\<close> on a negative depth.\<close>

fun d_loop ::
  "ndarray \<Rightarrow> real list \<Rightarrow> sigma \<Rightarrow> real \<Rightarrow> real list \<Rightarrow> real list \<Rightarrow> fit_state \<Rightarrow> exn + fit_state"
where
  "d_loop time flux sigma T t1_grid [] st = Inr st"
| "d_loop time flux sigma T t1_grid (d # d_grid) st =
     (if d < 0 then d_loop time flux sigma T t1_grid d_grid st
      else case t1_loop time flux sigma T d t1_grid st of
             Inl e \<Rightarrow> Inl e
           | Inr st' \<Rightarrow> d_loop time flux sigma T t1_grid d_grid st')"

text \<open>The outer loop, \<open>for T in T_grid\<close>, with its two \<open>continue\<close>s.\<close>

fun T_loop ::
  "ndarray \<Rightarrow> real list \<Rightarrow> sigma \<Rightarrow> real list \<Rightarrow> real \<Rightarrow> real \<Rightarrow> real \<Rightarrow> real list \<Rightarrow>
   fit_state \<Rightarrow> exn + fit_state"
where
  "T_loop time flux sigma d_grid t1_step t_min t_max [] st = Inr st"
| "T_loop time flux sigma d_grid t1_step t_min t_max (T # T_grid) st =
     (if T \<le> 0 then T_loop time flux sigma d_grid t1_step t_min t_max T_grid st
      else
        let t1_min = t_min;
            t1_max = t_max - T
        in if t1_max \<le> t1_min
           then T_loop time flux sigma d_grid t1_step t_min t_max T_grid st
           else case arange t1_min (t1_max + 0.5 * t1_step) t1_step of
                  Inl e \<Rightarrow> Inl e
                | Inr t1_grid \<Rightarrow>
                    (case d_loop time flux sigma T t1_grid d_grid st of
                       Inl e \<Rightarrow> Inl e
                     | Inr st' \<Rightarrow>
                         T_loop time flux sigma d_grid t1_step t_min t_max T_grid st'))"

text \<open>The result is the tuple \<open>(best_d, best_T, best_t1, best_chi2, best_model, count)\<close>.\<close>

type_synonym fit_result =
  "real option \<times> real option \<times> real option \<times> npfloat \<times> ndarray option \<times> nat"

definition fit_transit ::
  "ndarray \<Rightarrow> real list \<Rightarrow> sigma \<Rightarrow> real list \<Rightarrow> real list \<Rightarrow> real \<Rightarrow> exn + fit_result"
where
  "fit_transit time flux sigma d_grid T_grid t1_step =
     (case array_min time of
        Inl e \<Rightarrow> Inl e
      | Inr t_min \<Rightarrow>
          (case array_max time of
             Inl e \<Rightarrow> Inl e
           | Inr t_max \<Rightarrow>
               (case T_loop time flux sigma d_grid t1_step t_min t_max T_grid init_state of
                  Inl e \<Rightarrow> Inl e
                | Inr st \<Rightarrow>
                    Inr (best_d st, best_T st, best_t1 st, best_chi2 st, best_model st,
                         count st))))"

subsection \<open>What the specification speaks of\<close>

text \<open>
  The observed window \<open>[t_min, t_max]\<close> of a non-empty time grid, as the least and the
  greatest sample.
\<close>

definition t_min_of :: "ndarray \<Rightarrow> real" where
  "t_min_of time = Min (set (array_values time))"

definition t_max_of :: "ndarray \<Rightarrow> real" where
  "t_max_of time = Max (set (array_values time))"

text \<open>A duration passes the fitter's filters: \<open>T > 0\<close> and \<open>t_max - T > t_min\<close>.\<close>

definition feasible :: "real \<Rightarrow> real \<Rightarrow> real \<Rightarrow> bool" where
  "feasible t_min t_max T = (0 < T \<and> t_min < t_max - T)"

text \<open>
  The start-time grid the fitter builds for a duration that passes; there is none for a
  zero step, where \<open>np.arange\<close> raises.
\<close>

definition t1_grid_of :: "real \<Rightarrow> real \<Rightarrow> real \<Rightarrow> real \<Rightarrow> real list" where
  "t1_grid_of t_min t_max t1_step T =
     (if t1_step = 0 then [] else arange_values t_min (t_max - T + 0.5 * t1_step) t1_step)"

text \<open>
  The candidate triples \<open>(T, d, t1)\<close> in enumeration order: durations in the order of
  \<open>T_grid\<close>, for each the depths in the order of \<open>d_grid\<close>, for each the start times
  in the order of the grid.
\<close>

definition candidates :: "real \<Rightarrow> real \<Rightarrow> real list \<Rightarrow> real list \<Rightarrow> real \<Rightarrow> (real \<times> real \<times> real) list" where
  "candidates t_min t_max d_grid T_grid t1_step =
     concat (map (\<lambda>T.
        concat (map (\<lambda>d. map (\<lambda>t1. (T, d, t1)) (t1_grid_of t_min t_max t1_step T))
                    (filter (\<lambda>d. 0 \<le> d) d_grid)))
        (filter (feasible t_min t_max) T_grid))"

text \<open>The uncertainty of sample \<open>i\<close>: the scalar, or the \<open>i\<close>-th element.\<close>

definition sigma_at :: "sigma \<Rightarrow> nat \<Rightarrow> real" where
  "sigma_at sigma i = (case sigma of Scalar s \<Rightarrow> s | PerPoint ss \<Rightarrow> ss ! i)"

text \<open>The uncertainty fits the data: a scalar, or an array of the data's length.\<close>

definition sigma_shape :: "sigma \<Rightarrow> nat \<Rightarrow> bool" where
  "sigma_shape sigma n = (case sigma of Scalar s \<Rightarrow> True | PerPoint ss \<Rightarrow> length ss = n)"

text \<open>Every uncertainty is strictly positive.\<close>

definition sigma_positive :: "sigma \<Rightarrow> bool" where
  "sigma_positive sigma = (case sigma of Scalar s \<Rightarrow> 0 < s | PerPoint ss \<Rightarrow> list_all (\<lambda>s. 0 < s) ss)"

text \<open>A float that is a number not below zero, or \<open>+inf\<close>.\<close>

fun nonneg_or_inf :: "npfloat \<Rightarrow> bool" where
  "nonneg_or_inf (Fin x) = (0 \<le> x)"
| "nonneg_or_inf PInf = True"
| "nonneg_or_inf NInf = False"
| "nonneg_or_inf NaN = False"

text \<open>
  The chi-square the code computes for a candidate triple (\<open>nan\<close> stands in where
  \<open>chi2_test\<close> raises; no theorem below uses the score of such a triple).
\<close>

definition score :: "ndarray \<Rightarrow> real list \<Rightarrow> sigma \<Rightarrow> real \<times> real \<times> real \<Rightarrow> npfloat" where
  "score time flux sigma c =
     (case c of (T, d, t1) \<Rightarrow>
        (case chi2_test flux (create_flux_model time T d t1) sigma of
           Inl e \<Rightarrow> NaN
         | Inr x \<Rightarrow> x))"

text \<open>
  The count in closed form: over the durations that pass, the number of non-negative
  depths times the length of the start-time grid.
\<close>

definition count_spec :: "real \<Rightarrow> real \<Rightarrow> real list \<Rightarrow> real list \<Rightarrow> real \<Rightarrow> nat" where
  "count_spec t_min t_max d_grid T_grid t1_step =
     (\<Sum>T\<leftarrow>filter (feasible t_min t_max) T_grid.
        length (filter (\<lambda>d. 0 \<le> d) d_grid) * length (t1_grid_of t_min t_max t1_step T))"

text \<open>
  The body of the innermost loop run once, for one triple \<open>(T, d, t1)\<close>, and the same
  for a list of triples in order, leaving at the first exception.
\<close>

definition visit ::
  "ndarray \<Rightarrow> real list \<Rightarrow> sigma \<Rightarrow> real \<times> real \<times> real \<Rightarrow> fit_state \<Rightarrow> exn + fit_state"
where
  "visit time flux sigma c st = (case c of (T, d, t1) \<Rightarrow> t1_loop time flux sigma T d [t1] st)"

fun visit_all ::
  "ndarray \<Rightarrow> real list \<Rightarrow> sigma \<Rightarrow> (real \<times> real \<times> real) list \<Rightarrow> fit_state \<Rightarrow> exn + fit_state"
where
  "visit_all time flux sigma [] st = Inr st"
| "visit_all time flux sigma (c # cs) st =
     (case visit time flux sigma c st of
        Inl e \<Rightarrow> Inl e
      | Inr st' \<Rightarrow> visit_all time flux sigma cs st')"

text \<open>
  Two predicates on the running best: a later state keeps the best fit of an earlier one,
  and the best fit of a state is the triple \<open>c\<close>, with the model and the chi-square the
  code computed for it.
\<close>

definition same_best :: "fit_state \<Rightarrow> fit_state \<Rightarrow> bool" where
  "same_best st st' =
     (best_chi2 st' = best_chi2 st \<and> best_d st' = best_d st \<and> best_T st' = best_T st \<and>
      best_t1 st' = best_t1 st \<and> best_model st' = best_model st)"

definition best_is :: "ndarray \<Rightarrow> real list \<Rightarrow> sigma \<Rightarrow> real \<times> real \<times> real \<Rightarrow> fit_state \<Rightarrow> bool" where
  "best_is time flux sigma c st =
     (case c of (T, d, t1) \<Rightarrow>
        best_d st = Some d \<and> best_T st = Some T \<and> best_t1 st = Some t1 \<and>
        best_model st = Some (create_flux_model time T d t1) \<and>
        chi2_test flux (create_flux_model time T d t1) sigma = Inr (best_chi2 st))"

text \<open>
  Index \<open>i\<close> is the first place in the list \<open>cs\<close> where \<open>f\<close> takes its least value,
  and that value is below \<open>+inf\<close>: no entry scores strictly lower, and every earlier
  entry scores strictly higher or is \<open>nan\<close>.
\<close>

definition first_minimum :: "('a \<Rightarrow> npfloat) \<Rightarrow> 'a list \<Rightarrow> nat \<Rightarrow> bool" where
  "first_minimum f cs i =
     (i < length cs \<and> fless (f (cs ! i)) PInf \<and>
      list_all (\<lambda>j. \<not> fless (f (cs ! j)) (f (cs ! i))) [0 ..< length cs] \<and>
      list_all (\<lambda>j. fless (f (cs ! i)) (f (cs ! j)) \<or> f (cs ! j) = NaN) [0 ..< i])"


section \<open>Evaluating the float operations\<close>

text \<open>
  For evaluation: a result below a million in size is far inside the float64 range.
\<close>

lemma to_float_code [code]:
  "to_float x =
     (if - 1000000 < x \<and> x < 1000000 then Fin x
      else if overflow_threshold \<le> x then PInf
      else if x \<le> - overflow_threshold then NInf
      else Fin x)"
  by (simp add: to_float_def overflow_threshold_def)

section \<open>The flux model and the chi-square\<close>

lemma create_flux_model_float:
  "create_flux_model (FloatArray xs) T d t1 =
     FloatArray (map (\<lambda>t. if t1 \<le> t \<and> t \<le> t1 + T then 1 - d else 1) xs)"
  unfolding create_flux_model_def mask_and_def Let_def
  by (induction xs) auto

lemma create_flux_model_int:
  "create_flux_model (IntArray ns) T d t1 =
     IntArray (map (\<lambda>n. if t1 \<le> real_of_int n \<and> real_of_int n \<le> t1 + T
                          then cast_int64 (1 - d) else 1) ns)"
  unfolding create_flux_model_def mask_and_def Let_def
  by (induction ns) auto

lemma length_create_flux_model [simp]:
  "length (array_values (create_flux_model time T d t1)) = length (array_values time)"
  by (cases time) (simp_all add: create_flux_model_float create_flux_model_int)

lemma map2_nth:
  "length xs = length ys \<Longrightarrow> map2 f xs ys = map (\<lambda>i. f (xs ! i) (ys ! i)) [0 ..< length xs]"
  by (rule nth_equalityI) simp_all

lemma chi2_test_quotients:
  assumes "length flux = length (array_values model)" "sigma_shape sigma (length flux)"
  shows "chi2_test flux model sigma =
           Inr (np_sum (map (\<lambda>i. fsquare (fdiv (fsub (flux ! i) (array_values model ! i))
                                              (sigma_at sigma i)))
                            [0 ..< length flux]))"
proof (cases sigma)
  case (Scalar s)
  then show ?thesis using assms
    by (simp add: chi2_test_def broadcast2_def map2_nth sigma_at_def comp_def)
next
  case (PerPoint ss)
  have "map2 fdiv (map2 fsub flux (array_values model)) ss =
          map (\<lambda>i. fdiv (fsub (flux ! i) (array_values model ! i)) (ss ! i)) [0 ..< length flux]"
    using assms PerPoint by (intro nth_equalityI) (simp_all add: sigma_shape_def)
  then show ?thesis using assms PerPoint
    by (simp add: chi2_test_def broadcast2_def sigma_at_def sigma_shape_def comp_def)
qed

lemma chi2_test_shape:
  assumes "length flux = length (array_values model)" "sigma_shape sigma (length flux)"
  shows "\<exists>c. chi2_test flux model sigma = Inr c"
  using chi2_test_quotients [OF assms] by blast

text \<open>Whether \<open>chi2_test\<close> raises depends on the lengths of its arguments only.\<close>

lemma broadcast2_length:
  "broadcast2 f xs ys = Inr zs \<Longrightarrow>
     length zs = (if length xs = length ys then length xs
                  else if length xs = 1 then length ys else length xs)"
  by (auto simp: broadcast2_def split: if_splits)

lemma broadcast2_returns:
  "(\<exists>zs. broadcast2 f xs ys = Inr zs) \<longleftrightarrow>
     length xs = length ys \<or> length xs = 1 \<or> length ys = 1"
  by (auto simp: broadcast2_def)

lemma chi2_test_returns_lengths:
  assumes "length (array_values m) = length (array_values m')"
    and "chi2_test flux m sigma = Inr x"
  shows "\<exists>y. chi2_test flux m' sigma = Inr y"
proof -
  from assms(2) obtain diff where d: "broadcast2 fsub flux (array_values m) = Inr diff"
    by (auto simp: chi2_test_def split: sum.splits)
  then obtain diff' where d': "broadcast2 fsub flux (array_values m') = Inr diff'"
    using broadcast2_returns [of fsub flux "array_values m"]
      broadcast2_returns [of fsub flux "array_values m'"] assms(1) by auto
  have len: "length diff' = length diff"
    using broadcast2_length [OF d] broadcast2_length [OF d'] assms(1) by simp
  show ?thesis
  proof (cases sigma)
    case (Scalar s)
    then show ?thesis by (simp add: chi2_test_def d')
  next
    case (PerPoint ss)
    with assms(2) d obtain q where "broadcast2 fdiv diff ss = Inr q"
      by (auto simp: chi2_test_def split: sum.splits)
    then obtain q' where "broadcast2 fdiv diff' ss = Inr q'"
      using broadcast2_returns [of fdiv diff ss] broadcast2_returns [of fdiv diff' ss] len
      by auto
    then show ?thesis using PerPoint by (simp add: chi2_test_def d')
  qed
qed

text \<open>
  Signs: the four operations of \<open>chi2_test\<close> on finite data and positive
  uncertainty. Of \<open>to_float\<close> the lemmas on the operations use two facts only, which
  the rounding of float64 has as well: it yields no \<open>nan\<close>, and for an exact result
  that is not negative it yields a number that is not negative, or \<open>+inf\<close>.
\<close>

lemma overflow_threshold_positive: "0 < overflow_threshold"
  by (simp add: overflow_threshold_def)

lemma to_float_not_nan: "to_float x \<noteq> NaN"
  by (simp add: to_float_def)

lemma to_float_nonneg: "0 \<le> x \<Longrightarrow> nonneg_or_inf (to_float x)"
  using overflow_threshold_positive by (simp add: to_float_def)

lemma fsub_not_nan: "fsub x y \<noteq> NaN"
  by (simp add: fsub_def to_float_not_nan)

lemma fdiv_not_nan: "0 < s \<Longrightarrow> x \<noteq> NaN \<Longrightarrow> fdiv x s \<noteq> NaN"
  by (cases x) (simp_all add: to_float_not_nan)

lemma fsquare_nonneg: "x \<noteq> NaN \<Longrightarrow> nonneg_or_inf (fsquare x)"
  by (cases x) (simp_all add: to_float_nonneg)

lemma fadd_nonneg: "nonneg_or_inf a \<Longrightarrow> nonneg_or_inf b \<Longrightarrow> nonneg_or_inf (fadd a b)"
  by (cases a; cases b) (simp_all add: to_float_nonneg)

lemma foldl_fadd_nonneg:
  "nonneg_or_inf a \<Longrightarrow> list_all nonneg_or_inf xs \<Longrightarrow> nonneg_or_inf (foldl fadd a xs)"
  by (induction xs arbitrary: a) (simp_all add: fadd_nonneg)

lemma np_sum_nonneg: "list_all nonneg_or_inf xs \<Longrightarrow> nonneg_or_inf (np_sum xs)"
  by (simp add: np_sum_def foldl_fadd_nonneg)

lemma sigma_positive_at:
  "sigma_positive sigma \<Longrightarrow> sigma_shape sigma n \<Longrightarrow> i < n \<Longrightarrow> 0 < sigma_at sigma i"
  by (cases sigma) (auto simp: sigma_positive_def sigma_shape_def sigma_at_def list_all_length)

text \<open>
  Claim C7, at an input where it fails. The claim: for every time grid the \<open>i\<close>-th
  element of the model is \<open>1.0 - d\<close> inside the window \<open>t1 \<le> time_i \<le> t1 + T\<close> and
  \<open>1.0\<close> outside. On a time grid of integer dtype \<open>np.ones_like(time)\<close> is an integer
  array, and the assignment on line 18 cuts \<open>1.0 - d\<close> off to an integer: for the
  samples \<open>0, 1, 2, 3\<close>, duration \<open>1\<close>, depth \<open>1/4\<close> and start \<open>1\<close> the model is
  \<open>[1, 0, 0, 1]\<close>, not \<open>[1, 3/4, 3/4, 1]\<close> as on the same samples given as floats.
\<close>

theorem create_flux_model_integer_grid:
  "create_flux_model (IntArray [0, 1, 2, 3]) 1 (1 / 4) 1 = IntArray [1, 0, 0, 1] \<and>
   create_flux_model (FloatArray [0, 1, 2, 3]) 1 (1 / 4) 1 = FloatArray [1, 3 / 4, 3 / 4, 1] \<and>
   array_values (IntArray [1, 0, 0, 1]) ! 1 = 0 \<and> (1 - 1 / 4 :: real) = 3 / 4"
proof -
  have a: "create_flux_model (IntArray [0, 1, 2, 3]) 1 (1 / 4) 1 = IntArray [1, 0, 0, 1]"
    by code_simp
  have b: "create_flux_model (FloatArray [0, 1, 2, 3]) 1 (1 / 4) 1 =
             FloatArray [1, 3 / 4, 3 / 4, 1]"
    by code_simp
  show ?thesis using a b by simp
qed

text \<open>
  Claim C8 as stated fails when an operation overflows: for the observed flux \<open>2^600\<close>,
  the predicted flux \<open>1\<close> and the uncertainty \<open>1\<close> the square is beyond the float64
  range and \<open>chi2_test\<close> returns \<open>+inf\<close>, which is no real number.
\<close>

theorem chi2_test_overflows:
  "length [2 ^ 600 :: real] = length (array_values (FloatArray [1])) \<and>
   sigma_shape (Scalar 1) (length [2 ^ 600 :: real]) \<and>
   sigma_positive (Scalar 1) \<and>
   chi2_test [2 ^ 600] (FloatArray [1]) (Scalar 1) = Inr PInf"
  by (simp add: chi2_test_def broadcast2_def fsub_def to_float_def overflow_threshold_def
      np_sum_def sigma_shape_def sigma_positive_def)

text \<open>
  Claim C8, amended. For observed and predicted flux of equal length and an uncertainty
  that is one scalar or an array of that length, all strictly positive, \<open>chi2_test\<close>
  raises nothing and returns the float64 sum over \<open>i\<close> of
  \<open>((observed_i - predicted_i) / sigma_i)^2\<close>; this result is a number that is not
  negative, or \<open>+inf\<close> when an operation overflows. It is never negative and never
  \<open>nan\<close>.
\<close>

theorem chi2_test_sum_of_squares:
  assumes "length observed = length (array_values predicted)"
    and "sigma_shape sigma (length observed)"
    and "sigma_positive sigma"
  shows "\<exists>chi2.
           chi2_test observed predicted sigma = Inr chi2 \<and>
           chi2 = np_sum (map (\<lambda>i. fsquare (fdiv (fsub (observed ! i) (array_values predicted ! i))
                                                  (sigma_at sigma i)))
                              [0 ..< length observed]) \<and>
           nonneg_or_inf chi2"
proof -
  have "nonneg_or_inf (fsquare (fdiv (fsub (observed ! i) (array_values predicted ! i))
                                     (sigma_at sigma i)))"
    if "i < length observed" for i
    using sigma_positive_at [OF assms(3) assms(2) that]
    by (intro fsquare_nonneg fdiv_not_nan fsub_not_nan)
  then have "list_all nonneg_or_inf
               (map (\<lambda>i. fsquare (fdiv (fsub (observed ! i) (array_values predicted ! i))
                                        (sigma_at sigma i)))
                    [0 ..< length observed])"
    by (simp add: list_all_iff)
  from np_sum_nonneg [OF this] chi2_test_quotients [OF assms(1) assms(2)]
  show ?thesis by simp
qed

theorem chi2_test_sum_of_squares_witness:
  "chi2_test [1, 3] (FloatArray [2, 1]) (PerPoint [1, 2]) = Inr (Fin 2) \<and>
   chi2_test [1, 3] (FloatArray [2, 1]) (Scalar 2) = Inr (Fin (5 / 4)) \<and>
   nonneg_or_inf (Fin 2)"
proof -
  have a: "chi2_test [1, 3] (FloatArray [2, 1]) (PerPoint [1, 2]) = Inr (Fin 2)" by code_simp
  have b: "chi2_test [1, 3] (FloatArray [2, 1]) (Scalar 2) = Inr (Fin (5 / 4))" by code_simp
  have s1: "sigma_shape (PerPoint [1, 2]) (length [1, 3 :: real])" by (simp add: sigma_shape_def)
  have p1: "sigma_positive (PerPoint [1, 2])" by (simp add: sigma_positive_def)
  have l: "length [1, 3 :: real] = length (array_values (FloatArray [2, 1]))" by simp
  from chi2_test_sum_of_squares [OF l s1 p1]
  have "\<exists>chi2. chi2_test [1, 3] (FloatArray [2, 1]) (PerPoint [1, 2]) = Inr chi2 \<and>
               nonneg_or_inf chi2"
    by blast
  with a b show ?thesis by simp
qed


section \<open>The three loops visit the candidate triples in order\<close>

lemma visit_unfold:
  "visit time flux sigma (T, d, t1) st =
     (case chi2_test flux (create_flux_model time T d t1) sigma of
        Inl e \<Rightarrow> Inl e
      | Inr chi2 \<Rightarrow>
          Inr (if fless chi2 (best_chi2 st)
               then st\<lparr>count := count st + 1, best_chi2 := chi2, best_d := Some d,
                       best_T := Some T, best_t1 := Some t1,
                       best_model := Some (create_flux_model time T d t1)\<rparr>
               else st\<lparr>count := count st + 1\<rparr>))"
  by (simp add: visit_def Let_def split: sum.splits)

lemma t1_loop_visit_all:
  "t1_loop time flux sigma T d t1_grid st =
     visit_all time flux sigma (map (\<lambda>t1. (T, d, t1)) t1_grid) st"
proof (induction t1_grid arbitrary: st)
  case Nil
  show ?case by simp
next
  case (Cons t1 t1_grid)
  show ?case
    by (simp add: visit_def Let_def Cons.IH split: sum.splits)
qed

lemma visit_all_append:
  "visit_all time flux sigma (xs @ ys) st =
     (case visit_all time flux sigma xs st of
        Inl e \<Rightarrow> Inl e
      | Inr st' \<Rightarrow> visit_all time flux sigma ys st')"
  by (induction xs arbitrary: st) (simp_all split: sum.splits)

lemma d_loop_visit_all:
  "d_loop time flux sigma T t1_grid d_grid st =
     visit_all time flux sigma
       (concat (map (\<lambda>d. map (\<lambda>t1. (T, d, t1)) t1_grid) (filter (\<lambda>d. 0 \<le> d) d_grid))) st"
proof (induction d_grid arbitrary: st)
  case Nil
  show ?case by simp
next
  case (Cons d d_grid)
  show ?case
    by (simp add: Cons.IH t1_loop_visit_all visit_all_append not_le split: sum.splits)
qed

lemma T_loop_visit_all:
  assumes "t1_step \<noteq> 0"
  shows "T_loop time flux sigma d_grid t1_step t_min t_max T_grid st =
           visit_all time flux sigma (candidates t_min t_max d_grid T_grid t1_step) st"
proof (induction T_grid arbitrary: st)
  case Nil
  show ?case by (simp add: candidates_def)
next
  case (Cons T T_grid)
  have tail: "candidates t_min t_max d_grid (T # T_grid) t1_step =
      (if feasible t_min t_max T
       then concat (map (\<lambda>d. map (\<lambda>t1. (T, d, t1)) (t1_grid_of t_min t_max t1_step T))
                        (filter (\<lambda>d. 0 \<le> d) d_grid))
            @ candidates t_min t_max d_grid T_grid t1_step
       else candidates t_min t_max d_grid T_grid t1_step)"
    by (simp add: candidates_def)
  show ?case
  proof (cases "feasible t_min t_max T")
    case True
    then have "\<not> T \<le> 0" "\<not> t_max - T \<le> t_min" by (simp_all add: feasible_def)
    then show ?thesis using True assms
      by (simp add: tail Let_def arange_def t1_grid_of_def d_loop_visit_all visit_all_append
          Cons.IH split: sum.splits)
  next
    case False
    then have "T \<le> 0 \<or> t_max - T \<le> t_min" by (auto simp: feasible_def)
    then show ?thesis using False
      by (auto simp: tail Let_def Cons.IH)
  qed
qed

lemma candidates_step_zero: "candidates t_min t_max d_grid T_grid 0 = []"
  by (simp add: candidates_def t1_grid_of_def)

lemma T_loop_step_zero:
  "T_loop time flux sigma d_grid 0 t_min t_max T_grid st =
     (if list_ex (feasible t_min t_max) T_grid then Inl ArangeZeroStep else Inr st)"
proof (induction T_grid)
  case Nil
  show ?case by simp
next
  case (Cons T T_grid)
  show ?case
    by (auto simp: Let_def arange_def feasible_def Cons.IH)
qed

lemma T_loop_returns:
  assumes "T_loop time flux sigma d_grid t1_step t_min t_max T_grid st = Inr st'"
  shows "visit_all time flux sigma (candidates t_min t_max d_grid T_grid t1_step) st = Inr st'"
proof (cases "t1_step = 0")
  case True
  then show ?thesis using assms
    by (simp add: candidates_step_zero T_loop_step_zero split: if_splits)
next
  case False
  then show ?thesis using assms by (simp add: T_loop_visit_all)
qed

section \<open>What one visit and a run of visits do to the state\<close>

lemma visit_count:
  "visit time flux sigma c st = Inr st' \<Longrightarrow> count st' = count st + 1"
  by (cases c) (auto simp: visit_unfold split: sum.splits if_splits)

lemma visit_all_count:
  "visit_all time flux sigma cs st = Inr st' \<Longrightarrow> count st' = count st + length cs"
proof (induction cs arbitrary: st)
  case Nil
  then show ?case by simp
next
  case (Cons c cs)
  then show ?case
    by (auto split: sum.splits dest!: visit_count)
qed

lemma visit_best:
  "visit time flux sigma c st = Inr st' \<Longrightarrow> same_best st st' \<or> best_is time flux sigma c st'"
  by (cases c) (auto simp: visit_unfold same_best_def best_is_def split: sum.splits if_splits)

lemma visit_all_best:
  "visit_all time flux sigma cs st = Inr st' \<Longrightarrow>
     same_best st st' \<or> (\<exists>c \<in> set cs. best_is time flux sigma c st')"
proof (induction cs arbitrary: st)
  case Nil
  then show ?case by (simp add: same_best_def)
next
  case (Cons c cs)
  from Cons.prems obtain st1 where v: "visit time flux sigma c st = Inr st1"
    and r: "visit_all time flux sigma cs st1 = Inr st'"
    by (auto split: sum.splits)
  from Cons.IH [OF r] show ?case
  proof
    assume "same_best st1 st'"
    with visit_best [OF v] show ?thesis
      by (auto simp: same_best_def best_is_def)
  next
    assume "\<exists>c \<in> set cs. best_is time flux sigma c st'"
    then show ?thesis by auto
  qed
qed

lemma candidates_member:
  "(T, d, t1) \<in> set (candidates t_min t_max d_grid T_grid t1_step) \<longleftrightarrow>
     T \<in> set T_grid \<and> 0 < T \<and> t_min < t_max - T \<and> d \<in> set d_grid \<and> 0 \<le> d \<and>
     t1 \<in> set (t1_grid_of t_min t_max t1_step T)"
  by (auto simp: candidates_def feasible_def)

lemma length_concat_replicate:
  "length (concat (map (\<lambda>d. map (f d) xs) ds)) = length ds * length xs"
  by (induction ds) simp_all

lemma length_candidates:
  "length (candidates t_min t_max d_grid T_grid t1_step) =
     count_spec t_min t_max d_grid T_grid t1_step"
  unfolding candidates_def count_spec_def
  by (induction T_grid) (simp_all add: length_concat_replicate)

lemma array_min_eq: "array_values time \<noteq> [] \<Longrightarrow> array_min time = Inr (t_min_of time)"
proof (cases "array_values time")
  case Nil
  assume "array_values time \<noteq> []"
  with Nil show ?thesis by simp
next
  case (Cons x xs)
  show ?thesis
    unfolding array_min_def t_min_of_def Cons using Min.set_eq_fold [of x xs] by simp
qed

lemma array_max_eq: "array_values time \<noteq> [] \<Longrightarrow> array_max time = Inr (t_max_of time)"
proof (cases "array_values time")
  case Nil
  assume "array_values time \<noteq> []"
  with Nil show ?thesis by simp
next
  case (Cons x xs)
  show ?thesis
    unfolding array_max_def t_max_of_def Cons using Max.set_eq_fold [of x xs] by simp
qed

lemma fit_transit_empty:
  "array_values time = [] \<Longrightarrow>
     fit_transit time flux sigma d_grid T_grid t1_step = Inl EmptyReduction"
  by (simp add: fit_transit_def array_min_def)

lemma fit_transit_nonempty:
  assumes "array_values time \<noteq> []"
  shows "fit_transit time flux sigma d_grid T_grid t1_step =
     (case T_loop time flux sigma d_grid t1_step (t_min_of time) (t_max_of time) T_grid init_state of
        Inl e \<Rightarrow> Inl e
      | Inr st \<Rightarrow>
          Inr (best_d st, best_T st, best_t1 st, best_chi2 st, best_model st, count st))"
  by (simp add: fit_transit_def array_min_eq [OF assms] array_max_eq [OF assms])

lemma fit_transit_returns:
  assumes "fit_transit time flux sigma d_grid T_grid t1_step = Inr (bd, bT, bt1, chi2, m, n)"
  shows "array_values time \<noteq> [] \<and>
    (\<exists>st. visit_all time flux sigma
            (candidates (t_min_of time) (t_max_of time) d_grid T_grid t1_step) init_state = Inr st \<and>
          best_d st = bd \<and> best_T st = bT \<and> best_t1 st = bt1 \<and> best_chi2 st = chi2 \<and>
          best_model st = m \<and> count st = n)"
proof -
  have ne: "array_values time \<noteq> []" using assms by (auto simp: fit_transit_empty)
  from assms obtain st where
    t: "T_loop time flux sigma d_grid t1_step (t_min_of time) (t_max_of time) T_grid init_state = Inr st"
    and r: "(best_d st, best_T st, best_t1 st, best_chi2 st, best_model st, count st) = (bd, bT, bt1, chi2, m, n)"
    by (auto simp: fit_transit_nonempty [OF ne] split: sum.splits)
  from T_loop_returns [OF t] r ne show ?thesis by auto
qed

lemma visit_all_total:
  assumes "length flux = length (array_values time)"
    "sigma_shape sigma (length (array_values time))"
  shows "\<exists>st'. visit_all time flux sigma cs st = Inr st'"
proof (induction cs arbitrary: st)
  case Nil
  show ?case by simp
next
  case (Cons c cs)
  obtain T d t1 where c: "c = (T, d, t1)" by (cases c)
  have "length flux = length (array_values (create_flux_model time T d t1))"
    using assms by simp
  from chi2_test_shape [OF this] assms
  obtain x where "chi2_test flux (create_flux_model time T d t1) sigma = Inr x" by auto
  then obtain st1 where "visit time flux sigma c st = Inr st1"
    by (simp add: c visit_unfold)
  with Cons.IH [of st1] show ?case by simp
qed

lemma fit_transit_total:
  assumes "array_values time \<noteq> []" "length flux = length (array_values time)"
    "sigma_shape sigma (length (array_values time))" "t1_step \<noteq> 0"
  shows "\<exists>r. fit_transit time flux sigma d_grid T_grid t1_step = Inr r"
proof -
  obtain st where "visit_all time flux sigma
            (candidates (t_min_of time) (t_max_of time) d_grid T_grid t1_step) init_state = Inr st"
    using visit_all_total [OF assms(2,3)] by blast
  then show ?thesis
    by (simp add: fit_transit_nonempty [OF assms(1)] T_loop_visit_all [OF assms(4)])
qed

lemma T_loop_infeasible:
  assumes "\<forall>T \<in> set T_grid. T \<le> 0 \<or> t_max - T \<le> t_min"
  shows "T_loop time flux sigma d_grid t1_step t_min t_max T_grid st = Inr st"
  using assms by (induction T_grid) (auto simp: Let_def)


section \<open>The first minimum wins\<close>

text \<open>The order of the floats: what the comparison on line 86 can tell.\<close>

lemma fless_irrefl: "\<not> fless x x"
  by (cases x) simp_all

lemma fless_trans: "fless x y \<Longrightarrow> fless y z \<Longrightarrow> fless x z"
  by (cases x; cases y; cases z) simp_all

lemma fless_total: "x \<noteq> NaN \<Longrightarrow> y \<noteq> NaN \<Longrightarrow> fless x y \<or> x = y \<or> fless y x"
  by (cases x; cases y) auto

lemma fless_not_nan: "fless x y \<Longrightarrow> x \<noteq> NaN \<and> y \<noteq> NaN"
  by (cases x; cases y) simp_all

lemma not_below_inf: "\<not> fless x PInf \<Longrightarrow> x = PInf \<or> x = NaN"
  by (cases x) simp_all

lemma fless_inf_left: "\<not> fless PInf y"
  by (cases y) simp_all

lemma first_minimum_iff:
  "first_minimum f cs i \<longleftrightarrow>
     i < length cs \<and> fless (f (cs ! i)) PInf \<and>
     (\<forall>j < length cs. \<not> fless (f (cs ! j)) (f (cs ! i))) \<and>
     (\<forall>j < i. fless (f (cs ! i)) (f (cs ! j)) \<or> f (cs ! j) = NaN)"
  by (auto simp: first_minimum_def list_all_iff)

lemma first_minimum_start:
  assumes "\<forall>c' \<in> set xs. \<not> fless (f c') PInf" "fless (f c) PInf"
  shows "first_minimum f (xs @ [c]) (length xs)"
proof -
  have e: "f (xs ! j) = PInf \<or> f (xs ! j) = NaN" if "j < length xs" for j
    using assms(1) that not_below_inf by auto
  have "\<not> fless (f (xs ! j)) (f c)" if "j < length xs" for j
    using e [OF that] fless_inf_left by auto
  moreover have "fless (f c) (f (xs ! j)) \<or> f (xs ! j) = NaN" if "j < length xs" for j
    using e [OF that] assms(2) by auto
  ultimately show ?thesis
    using assms(2) fless_irrefl [of "f c"]
    by (auto simp: first_minimum_iff nth_append less_Suc_eq)
qed

lemma first_minimum_snoc_new:
  assumes "first_minimum f xs i" "fless (f c) (f (xs ! i))"
  shows "first_minimum f (xs @ [c]) (length xs)"
proof -
  from assms(1) have i: "i < length xs" and fin: "fless (f (xs ! i)) PInf"
    and low: "\<forall>j < length xs. \<not> fless (f (xs ! j)) (f (xs ! i))"
    by (simp_all add: first_minimum_iff)
  have below: "fless (f c) PInf" using assms(2) fin by (rule fless_trans)
  have nn: "f (xs ! i) \<noteq> NaN" using fin fless_not_nan by blast
  have a: "\<not> fless (f (xs ! j)) (f c)" if "j < length xs" for j
  proof
    assume "fless (f (xs ! j)) (f c)"
    then have "fless (f (xs ! j)) (f (xs ! i))" using assms(2) by (rule fless_trans)
    with low that show False by blast
  qed
  have b: "fless (f c) (f (xs ! j)) \<or> f (xs ! j) = NaN" if "j < length xs" for j
  proof (cases "f (xs ! j) = NaN")
    case True
    then show ?thesis by simp
  next
    case False
    with nn fless_total [of "f (xs ! i)" "f (xs ! j)"] low that
    have "fless (f (xs ! i)) (f (xs ! j)) \<or> f (xs ! i) = f (xs ! j)" by blast
    with assms(2) fless_trans show ?thesis by metis
  qed
  show ?thesis
    using a b below fless_irrefl [of "f c"]
    by (auto simp: first_minimum_iff nth_append less_Suc_eq)
qed

lemma first_minimum_snoc_old:
  assumes "first_minimum f xs i" "\<not> fless (f c) (f (xs ! i))"
  shows "first_minimum f (xs @ [c]) i"
  using assms by (auto simp: first_minimum_iff nth_append less_Suc_eq)

lemma best_is_count: "best_is time flux sigma c (st\<lparr>count := k\<rparr>) = best_is time flux sigma c st"
  by (cases c) (simp add: best_is_def)

lemma same_best_count: "same_best st0 (st\<lparr>count := k\<rparr>) = same_best st0 st"
  by (simp add: same_best_def)

lemma visit_all_first_minimum:
  assumes "\<And>T d t1. (T, d, t1) \<in> set cs \<Longrightarrow>
             chi2_test flux (create_flux_model time T d t1) sigma = Inr (f (T, d, t1))"
  shows "\<exists>st. visit_all time flux sigma cs init_state = Inr st \<and>
           ((\<forall>c \<in> set cs. \<not> fless (f c) PInf) \<longrightarrow> same_best init_state st) \<and>
           ((\<exists>c \<in> set cs. fless (f c) PInf) \<longrightarrow>
              (\<exists>i. first_minimum f cs i \<and> best_is time flux sigma (cs ! i) st \<and>
                   best_chi2 st = f (cs ! i)))"
  using assms
proof (induction cs rule: rev_induct)
  case Nil
  show ?case by (simp add: same_best_def)
next
  case (snoc c xs)
  obtain T d t1 where c: "c = (T, d, t1)" by (cases c)
  have chi: "chi2_test flux (create_flux_model time T d t1) sigma = Inr (f c)"
    using snoc.prems [of T d t1] by (simp add: c)
  from snoc.IH snoc.prems obtain st where
    v: "visit_all time flux sigma xs init_state = Inr st"
    and none: "(\<forall>c \<in> set xs. \<not> fless (f c) PInf) \<longrightarrow> same_best init_state st"
    and some: "(\<exists>c \<in> set xs. fless (f c) PInf) \<longrightarrow>
              (\<exists>i. first_minimum f xs i \<and> best_is time flux sigma (xs ! i) st \<and>
                   best_chi2 st = f (xs ! i))"
    by auto
  let ?new = "st\<lparr>count := count st + 1, best_chi2 := f c, best_d := Some d,
                  best_T := Some T, best_t1 := Some t1,
                  best_model := Some (create_flux_model time T d t1)\<rparr>"
  let ?old = "st\<lparr>count := count st + 1\<rparr>"
  have step: "visit_all time flux sigma (xs @ [c]) init_state =
                Inr (if fless (f c) (best_chi2 st) then ?new else ?old)"
    using chi by (simp add: visit_all_append v c visit_unfold)
  have new_best: "best_is time flux sigma ((xs @ [c]) ! length xs) ?new \<and>
                  best_chi2 ?new = f ((xs @ [c]) ! length xs)"
    using chi by (simp add: best_is_def c)
  show ?case
  proof (cases "\<exists>c' \<in> set xs. fless (f c') PInf")
    case True
    with some obtain i where fm: "first_minimum f xs i"
      and b: "best_is time flux sigma (xs ! i) st" and bc: "best_chi2 st = f (xs ! i)"
      by blast
    from fm have i: "i < length xs" by (simp add: first_minimum_iff)
    show ?thesis
    proof (cases "fless (f c) (f (xs ! i))")
      case less: True
      from first_minimum_snoc_new [OF fm less] new_best step less bc True
      show ?thesis by auto
    next
      case notless: False
      have "best_is time flux sigma ((xs @ [c]) ! i) ?old \<and> best_chi2 ?old = f ((xs @ [c]) ! i)"
        using b bc i by (simp add: best_is_count nth_append)
      with first_minimum_snoc_old [OF fm notless] step notless bc True
      show ?thesis by auto
    qed
  next
    case False
    with none have sb: "same_best init_state st" by blast
    then have inf: "best_chi2 st = PInf" by (simp add: same_best_def init_state_def)
    show ?thesis
    proof (cases "fless (f c) PInf")
      case below: True
      from first_minimum_start [of xs f c] False below
      have "first_minimum f (xs @ [c]) (length xs)" by blast
      with new_best step below inf show ?thesis by auto
    next
      case notbelow: False
      have "same_best init_state ?old" using sb by (simp add: same_best_count)
      with step notbelow inf False show ?thesis by auto
    qed
  qed
qed

lemma score_eq:
  "chi2_test flux (create_flux_model time T d t1) sigma = Inr x \<Longrightarrow>
     score time flux sigma (T, d, t1) = x"
  by (simp add: score_def)

lemma score_below_inf_returns:
  assumes "fless (score time flux sigma (T, d, t1)) PInf"
  shows "\<exists>x. chi2_test flux (create_flux_model time T d t1) sigma = Inr x"
  using assms by (auto simp: score_def split: sum.splits)

lemma all_scores_returned:
  assumes "fless (score time flux sigma c0) PInf"
  shows "chi2_test flux (create_flux_model time T d t1) sigma = Inr (score time flux sigma (T, d, t1))"
proof -
  obtain T0 d0 t0 where c0: "c0 = (T0, d0, t0)" by (cases c0)
  from score_below_inf_returns [of time flux sigma T0 d0 t0] assms c0
  obtain x where x: "chi2_test flux (create_flux_model time T0 d0 t0) sigma = Inr x" by auto
  have "length (array_values (create_flux_model time T0 d0 t0)) =
        length (array_values (create_flux_model time T d t1))" by simp
  from chi2_test_returns_lengths [OF this x]
  obtain y where "chi2_test flux (create_flux_model time T d t1) sigma = Inr y" by blast
  then show ?thesis by (simp add: score_eq)
qed

lemma fit_transit_first_minimum:
  assumes "array_values time \<noteq> []"
    and "c0 \<in> set (candidates (t_min_of time) (t_max_of time) d_grid T_grid t1_step)"
    and "fless (score time flux sigma c0) PInf"
  shows "\<exists>i T d t1.
           first_minimum (score time flux sigma)
             (candidates (t_min_of time) (t_max_of time) d_grid T_grid t1_step) i \<and>
           candidates (t_min_of time) (t_max_of time) d_grid T_grid t1_step ! i = (T, d, t1) \<and>
           fit_transit time flux sigma d_grid T_grid t1_step =
             Inr (Some d, Some T, Some t1, score time flux sigma (T, d, t1),
                  Some (create_flux_model time T d t1),
                  length (candidates (t_min_of time) (t_max_of time) d_grid T_grid t1_step))"
proof -
  let ?cs = "candidates (t_min_of time) (t_max_of time) d_grid T_grid t1_step"
  have step: "t1_step \<noteq> 0" using assms(2) candidates_step_zero by auto
  from visit_all_first_minimum [of ?cs flux time sigma "score time flux sigma"]
    all_scores_returned [OF assms(3)] assms(2,3)
  obtain st i where v: "visit_all time flux sigma ?cs init_state = Inr st"
    and fm: "first_minimum (score time flux sigma) ?cs i"
    and b: "best_is time flux sigma (?cs ! i) st"
    and bc: "best_chi2 st = score time flux sigma (?cs ! i)"
    by blast
  obtain T d t1 where c: "?cs ! i = (T, d, t1)" by (cases "?cs ! i")
  have n: "count st = length ?cs" using visit_all_count [OF v] by (simp add: init_state_def)
  have "fit_transit time flux sigma d_grid T_grid t1_step =
          Inr (Some d, Some T, Some t1, score time flux sigma (T, d, t1),
               Some (create_flux_model time T d t1), length ?cs)"
    using b bc n
    by (simp add: fit_transit_nonempty [OF assms(1)] T_loop_visit_all [OF step] v c best_is_def)
  with fm c show ?thesis by blast
qed

text \<open>
  The other way round: when no candidate has a chi-square below \<open>+inf\<close>, because of a
  zero uncertainty or because every chi-square overflows, nothing is found.
\<close>

lemma fit_transit_nothing_below_inf:
  assumes "array_values time \<noteq> []" "t1_step \<noteq> 0"
    and "\<And>T d t1. (T, d, t1) \<in> set (candidates (t_min_of time) (t_max_of time) d_grid T_grid t1_step)
           \<Longrightarrow> \<exists>x. chi2_test flux (create_flux_model time T d t1) sigma = Inr x \<and> \<not> fless x PInf"
  shows "fit_transit time flux sigma d_grid T_grid t1_step =
           Inr (None, None, None, PInf, None,
                length (candidates (t_min_of time) (t_max_of time) d_grid T_grid t1_step))"
proof -
  let ?cs = "candidates (t_min_of time) (t_max_of time) d_grid T_grid t1_step"
  have ret: "chi2_test flux (create_flux_model time T d t1) sigma =
               Inr (score time flux sigma (T, d, t1))"
    if "(T, d, t1) \<in> set ?cs" for T d t1
    using assms(3) [OF that] by (auto simp: score_eq)
  have none: "\<forall>c \<in> set ?cs. \<not> fless (score time flux sigma c) PInf"
  proof
    fix c assume c: "c \<in> set ?cs"
    obtain T d t1 where [simp]: "c = (T, d, t1)" by (cases c)
    from assms(3) [of T d t1] c show "\<not> fless (score time flux sigma c) PInf"
      by (auto simp: score_eq)
  qed
  from visit_all_first_minimum [of ?cs flux time sigma "score time flux sigma"] ret none
  obtain st where v: "visit_all time flux sigma ?cs init_state = Inr st"
    and sb: "same_best init_state st"
    by blast
  have n: "count st = length ?cs" using visit_all_count [OF v] by (simp add: init_state_def)
  from sb have "best_chi2 st = PInf \<and> best_d st = None \<and> best_T st = None \<and>
      best_t1 st = None \<and> best_model st = None"
    by (simp add: same_best_def init_state_def)
  with n show ?thesis
    by (simp add: fit_transit_nonempty [OF assms(1)] T_loop_visit_all [OF assms(2)] v)
qed


section \<open>The start-time grid\<close>

lemma t1_grid_bounds:
  assumes "0 < t1_step" "t1 \<in> set (t1_grid_of t_min t_max t1_step T)"
  shows "t_min \<le> t1 \<and> t1 < t_max - T + t1_step / 2"
proof -
  from assms(2) obtain i where
    i: "i < nat \<lceil>(t_max - T + 0.5 * t1_step - t_min) / t1_step\<rceil>"
    and t1: "t1 = t_min + real i * t1_step"
    using assms(1) by (auto simp: t1_grid_of_def arange_values_def)
  from i have "int i < \<lceil>(t_max - T + 0.5 * t1_step - t_min) / t1_step\<rceil>" by linarith
  then have "real i < (t_max - T + 0.5 * t1_step - t_min) / t1_step"
    by (simp add: less_ceiling_iff)
  then have "real i * t1_step < t_max - T + 0.5 * t1_step - t_min"
    using assms(1) by (simp add: pos_less_divide_eq)
  moreover have "0 \<le> real i * t1_step" using assms(1) by simp
  ultimately show ?thesis using t1 by simp
qed

lemma not_fless_fle: "y \<noteq> NaN \<Longrightarrow> \<not> fless x y \<Longrightarrow> fle y x \<or> x = NaN"
  using fless_total [of y x] by (auto simp: fle_def)

section \<open>The claims about the fitter\<close>

text \<open>
  Claim C1 as stated fails when no candidate has a chi-square below \<open>+inf\<close>. With a
  zero uncertainty every chi-square is \<open>inf\<close> or \<open>nan\<close>, no comparison with the
  running best on line 86 succeeds, and \<open>fit_transit\<close> returns no triple although four
  candidates pass the filters and are counted. An input on which every chi-square
  overflows has the same effect (\<open>fit_transit_nothing_below_inf\<close>).
\<close>

theorem fit_transit_zero_sigma_finds_nothing:
  "candidates 0 4 [1 / 2] [1] 1 = [(1, 1 / 2, 0), (1, 1 / 2, 1), (1, 1 / 2, 2), (1, 1 / 2, 3)] \<and>
   fit_transit (FloatArray [0, 4]) [1, 1 / 2] (Scalar 0) [1 / 2] [1] 1 =
     Inr (None, None, None, PInf, None, 4)"
proof -
  have a: "candidates 0 4 [1 / 2] [1] 1 =
             [(1, 1 / 2, 0), (1, 1 / 2, 1), (1, 1 / 2, 2), (1, 1 / 2, 3)]"
    by code_simp
  have b: "fit_transit (FloatArray [0, 4]) [1, 1 / 2] (Scalar 0) [1 / 2] [1] 1 =
     Inr (None, None, None, PInf, None, 4)"
    by code_simp
  show ?thesis using a b by simp
qed

text \<open>
  Claim C1, amended. For every input with a non-empty time grid for which at least one
  candidate triple passes the filters and gets a chi-square below \<open>+inf\<close> from
  \<open>chi2_test\<close> (a number: not \<open>inf\<close>, not \<open>nan\<close>), \<open>fit_transit\<close> returns a
  triple \<open>(best_d, best_T, best_t1)\<close> that is one of the enumerated candidates;
  the returned \<open>best_chi2\<close> is the chi-square of that triple, \<open>chi2_test\<close> raises for
  no candidate, and \<open>best_chi2\<close> is less than or equal to the chi-square of every
  candidate whose chi-square is not \<open>nan\<close>.
\<close>

theorem fit_transit_global_minimum:
  assumes "array_values time \<noteq> []"
    and "(T0, d0, t0) \<in> set (candidates (t_min_of time) (t_max_of time) d_grid T_grid t1_step)"
    and "chi2_test flux (create_flux_model time T0 d0 t0) sigma = Inr x0"
    and "fless x0 PInf"
  shows "\<exists>T d t1 chi2 model n.
           fit_transit time flux sigma d_grid T_grid t1_step =
             Inr (Some d, Some T, Some t1, chi2, model, n) \<and>
           (T, d, t1) \<in> set (candidates (t_min_of time) (t_max_of time) d_grid T_grid t1_step) \<and>
           chi2_test flux (create_flux_model time T d t1) sigma = Inr chi2 \<and>
           (\<forall>(T', d', t1') \<in> set (candidates (t_min_of time) (t_max_of time) d_grid T_grid t1_step).
              \<exists>x. chi2_test flux (create_flux_model time T' d' t1') sigma = Inr x \<and>
                  (fle chi2 x \<or> x = NaN))"
proof -
  let ?cs = "candidates (t_min_of time) (t_max_of time) d_grid T_grid t1_step"
  let ?f = "score time flux sigma"
  have below: "fless (?f (T0, d0, t0)) PInf"
    using assms(3,4) by (simp add: score_eq)
  from fit_transit_first_minimum [OF assms(1,2) below] obtain i T d t1 where
    fm: "first_minimum ?f ?cs i"
    and c: "?cs ! i = (T, d, t1)"
    and r: "fit_transit time flux sigma d_grid T_grid t1_step =
              Inr (Some d, Some T, Some t1, ?f (T, d, t1),
                   Some (create_flux_model time T d t1), length ?cs)"
    by blast
  from fm have i: "i < length ?cs" and fin: "fless (?f (?cs ! i)) PInf"
    and low: "\<forall>j < length ?cs. \<not> fless (?f (?cs ! j)) (?f (?cs ! i))"
    by (simp_all add: first_minimum_iff)
  from i c have mem: "(T, d, t1) \<in> set ?cs" by (metis nth_mem)
  have nn: "?f (T, d, t1) \<noteq> NaN" using fin c fless_not_nan by fastforce
  have "\<exists>x. chi2_test flux (create_flux_model time T' d' t1') sigma = Inr x \<and>
            (fle (?f (T, d, t1)) x \<or> x = NaN)"
    if "(T', d', t1') \<in> set ?cs" for T' d' t1'
  proof -
    from that obtain j where j: "j < length ?cs" "?cs ! j = (T', d', t1')"
      by (auto simp: in_set_conv_nth)
    with low c have "\<not> fless (?f (T', d', t1')) (?f (T, d, t1))" by auto
    from not_fless_fle [OF nn this] all_scores_returned [OF below, of T' d' t1']
    show ?thesis by blast
  qed
  with r mem all_scores_returned [OF below, of T d t1] show ?thesis by fastforce
qed

theorem fit_transit_global_minimum_witness:
  "fit_transit (FloatArray [0, 1, 2, 3, 4]) [1, 3 / 4, 3 / 4, 3 / 4, 1] (Scalar (1 / 2))
     [- (1 / 2), 1 / 4] [- 1, 2, 9] 1 =
     Inr (Some (1 / 4), Some 2, Some 1, Fin 0, Some (FloatArray [1, 3 / 4, 3 / 4, 3 / 4, 1]), 3) \<and>
   candidates 0 4 [- (1 / 2), 1 / 4] [- 1, 2, 9] 1 = [(2, 1 / 4, 0), (2, 1 / 4, 1), (2, 1 / 4, 2)] \<and>
   map (score (FloatArray [0, 1, 2, 3, 4]) [1, 3 / 4, 3 / 4, 3 / 4, 1] (Scalar (1 / 2)))
     (candidates 0 4 [- (1 / 2), 1 / 4] [- 1, 2, 9] 1) = [Fin (1 / 2), Fin 0, Fin (1 / 2)]"
proof -
  have h1: "array_values (FloatArray [0, 1, 2, 3, 4]) \<noteq> []" by simp
  have h2: "(2, 1 / 4, 1) \<in> set (candidates (t_min_of (FloatArray [0, 1, 2, 3, 4]))
              (t_max_of (FloatArray [0, 1, 2, 3, 4])) [- (1 / 2), 1 / 4] [- 1, 2, 9] 1)"
    by code_simp
  have h3: "chi2_test [1, 3 / 4, 3 / 4, 3 / 4, 1]
              (create_flux_model (FloatArray [0, 1, 2, 3, 4]) 2 (1 / 4) 1) (Scalar (1 / 2)) =
            Inr (Fin 0)"
    by code_simp
  have h4: "fless (Fin 0) PInf" by simp
  have e1: "fit_transit (FloatArray [0, 1, 2, 3, 4]) [1, 3 / 4, 3 / 4, 3 / 4, 1] (Scalar (1 / 2))
     [- (1 / 2), 1 / 4] [- 1, 2, 9] 1 =
     Inr (Some (1 / 4), Some 2, Some 1, Fin 0, Some (FloatArray [1, 3 / 4, 3 / 4, 3 / 4, 1]), 3)"
    by code_simp
  have e2: "candidates 0 4 [- (1 / 2), 1 / 4] [- 1, 2, 9] 1 =
              [(2, 1 / 4, 0), (2, 1 / 4, 1), (2, 1 / 4, 2)]"
    by code_simp
  have e3: "map (score (FloatArray [0, 1, 2, 3, 4]) [1, 3 / 4, 3 / 4, 3 / 4, 1] (Scalar (1 / 2)))
     (candidates 0 4 [- (1 / 2), 1 / 4] [- 1, 2, 9] 1) = [Fin (1 / 2), Fin 0, Fin (1 / 2)]"
    by code_simp
  show ?thesis
    using fit_transit_global_minimum [OF h1 h2 h3 h4] e1 e2 e3 by simp
qed

text \<open>
  Claim C2, at two inputs where it fails. The claim: the start-time grid runs from
  \<open>t1_min\<close> in steps of \<open>t1_step\<close> up to and including \<open>t1_max = t_max - T\<close>, so
  every candidate start time is at most \<open>t_max - T\<close>, \<open>best_t1 + best_T\<close> never
  exceeds \<open>t_max\<close> and \<open>best_t1\<close> lies inside the observed window.

  The stop value of \<open>np.arange\<close> is \<open>t1_max + 0.5 * t1_step\<close>, so the grid holds every
  \<open>t_min + i * t1_step\<close> below it (\<open>t1_grid_bounds\<close>): when \<open>t1_max - t_min\<close> is not a
  multiple of the step, the last grid point may lie up to half a step beyond \<open>t1_max\<close>.
  With samples at \<open>0, 1, ..., 8\<close>, duration \<open>9/4\<close> and step \<open>1\<close> the grid ends at \<open>6\<close>,
  beyond \<open>t1_max = 23/4\<close> and without \<open>t1_max\<close> itself; for a dip at the samples
  \<open>6, 7, 8\<close> the fitter returns \<open>best_t1 = 6\<close>, and \<open>best_t1 + best_T = 33/4\<close> exceeds
  \<open>t_max = 8\<close>. With samples at \<open>0\<close> and \<open>4\<close>, duration \<open>1\<close> and step \<open>9/2\<close> the
  returned \<open>best_t1 = 9/2\<close> is outside the observed window.
\<close>

theorem start_grid_exceeds_window:
  "t1_grid_of 0 8 1 (9 / 4) = [0, 1, 2, 3, 4, 5, 6] \<and>
   (8 - 9 / 4 :: real) < 6 \<and>
   fit_transit (FloatArray [0, 1, 2, 3, 4, 5, 6, 7, 8])
     [1, 1, 1, 1, 1, 1, 1 / 2, 1 / 2, 1 / 2] (Scalar 1) [1 / 2] [9 / 4] 1 =
     Inr (Some (1 / 2), Some (9 / 4), Some 6, Fin 0,
          Some (FloatArray [1, 1, 1, 1, 1, 1, 1 / 2, 1 / 2, 1 / 2]), 7) \<and>
   (8 :: real) < 6 + 9 / 4 \<and>
   fit_transit (FloatArray [0, 4]) [1, 1] (Scalar 1) [1 / 2] [1] (9 / 2) =
     Inr (Some (1 / 2), Some 1, Some (9 / 2), Fin 0, Some (FloatArray [1, 1]), 2) \<and>
   (4 :: real) < 9 / 2"
proof -
  have g: "t1_grid_of 0 8 1 (9 / 4) = [0, 1, 2, 3, 4, 5, 6]" by code_simp
  have a: "fit_transit (FloatArray [0, 1, 2, 3, 4, 5, 6, 7, 8])
      [1, 1, 1, 1, 1, 1, 1 / 2, 1 / 2, 1 / 2] (Scalar 1) [1 / 2] [9 / 4] 1 =
     Inr (Some (1 / 2), Some (9 / 4), Some 6, Fin 0,
          Some (FloatArray [1, 1, 1, 1, 1, 1, 1 / 2, 1 / 2, 1 / 2]), 7)"
    by code_simp
  have b: "fit_transit (FloatArray [0, 4]) [1, 1] (Scalar 1) [1 / 2] [1] (9 / 2) =
     Inr (Some (1 / 2), Some 1, Some (9 / 2), Fin 0, Some (FloatArray [1, 1]), 2)"
    by code_simp
  show ?thesis using g a b by simp
qed

text \<open>
  Claim C3. Whatever the input, and whatever negative depths and non-positive durations
  the grids hold: when \<open>fit_transit\<close> returns a found result (\<open>best_d\<close> is not
  \<open>None\<close>), the returned \<open>best_d\<close> is at least 0 and the returned \<open>best_T\<close> is
  greater than 0.
\<close>

theorem fit_transit_physical:
  assumes "fit_transit time flux sigma d_grid T_grid t1_step = Inr (Some bd, bT, bt1, chi2, m, n)"
  shows "0 \<le> bd \<and> (\<exists>T. bT = Some T \<and> 0 < T)"
proof -
  from fit_transit_returns [OF assms] obtain st where
    v: "visit_all time flux sigma
          (candidates (t_min_of time) (t_max_of time) d_grid T_grid t1_step) init_state = Inr st"
    and b: "best_d st = Some bd" "best_T st = bT"
    by blast
  from visit_all_best [OF v] b(1) obtain c where
    c: "c \<in> set (candidates (t_min_of time) (t_max_of time) d_grid T_grid t1_step)"
    and bc: "best_is time flux sigma c st"
    by (auto simp: same_best_def init_state_def)
  obtain T d t1 where [simp]: "c = (T, d, t1)" by (cases c)
  from c have "0 < T" "0 \<le> d" by (simp_all add: candidates_member)
  with bc b show ?thesis by (simp add: best_is_def)
qed

theorem fit_transit_physical_witness:
  "fit_transit (FloatArray [0, 1, 2, 3, 4]) [1, 3 / 2, 1, 1, 1] (Scalar 1) [- (1 / 2), 1 / 4]
     [- 1, 0, 1] 1 =
     Inr (Some (1 / 4), Some 1, Some 2, Fin (3 / 8), Some (FloatArray [1, 1, 3 / 4, 3 / 4, 1]), 4) \<and>
   (0 :: real) \<le> 1 / 4 \<and> (0 :: real) < 1"
proof -
  have e: "fit_transit (FloatArray [0, 1, 2, 3, 4]) [1, 3 / 2, 1, 1, 1] (Scalar 1)
      [- (1 / 2), 1 / 4] [- 1, 0, 1] 1 =
     Inr (Some (1 / 4), Some 1, Some 2, Fin (3 / 8), Some (FloatArray [1, 1, 3 / 4, 3 / 4, 1]), 4)"
    by code_simp
  show ?thesis using fit_transit_physical [OF e] e by simp
qed

text \<open>
  Claim C4. The count that \<open>fit_transit\<close> returns is the number of triples that pass
  the filters: the sum, over the durations \<open>T\<close> of \<open>T_grid\<close> with \<open>T > 0\<close> and
  \<open>t_max - T > t_min\<close>, of the number of depths \<open>d \<ge> 0\<close> in \<open>d_grid\<close> times the
  length of the start-time grid built for \<open>T\<close>. And \<open>fit_transit\<close> does return, for a
  non-empty time grid, data that fit it in length and a non-zero step.
\<close>

theorem fit_transit_count:
  "(array_values time \<noteq> [] \<and> length flux = length (array_values time) \<and>
    sigma_shape sigma (length (array_values time)) \<and> t1_step \<noteq> 0 \<longrightarrow>
      (\<exists>r. fit_transit time flux sigma d_grid T_grid t1_step = Inr r)) \<and>
   (\<forall>bd bT bt1 chi2 m n.
      fit_transit time flux sigma d_grid T_grid t1_step = Inr (bd, bT, bt1, chi2, m, n) \<longrightarrow>
      n = count_spec (t_min_of time) (t_max_of time) d_grid T_grid t1_step)"
proof (intro conjI allI impI)
  assume "array_values time \<noteq> [] \<and> length flux = length (array_values time) \<and>
    sigma_shape sigma (length (array_values time)) \<and> t1_step \<noteq> 0"
  then show "\<exists>r. fit_transit time flux sigma d_grid T_grid t1_step = Inr r"
    using fit_transit_total by blast
next
  fix bd bT bt1 chi2 m n
  assume "fit_transit time flux sigma d_grid T_grid t1_step = Inr (bd, bT, bt1, chi2, m, n)"
  from fit_transit_returns [OF this] obtain st where
    v: "visit_all time flux sigma
          (candidates (t_min_of time) (t_max_of time) d_grid T_grid t1_step) init_state = Inr st"
    and n: "count st = n"
    by blast
  from visit_all_count [OF v] n
  show "n = count_spec (t_min_of time) (t_max_of time) d_grid T_grid t1_step"
    by (simp add: length_candidates init_state_def)
qed

theorem fit_transit_count_witness:
  "fit_transit (FloatArray [0, 4]) [1, 1 / 2] (Scalar 1) [- 1, 1 / 2, 1 / 4] [- 1, 1, 2, 5] 1 =
     Inr (Some (1 / 2), Some 1, Some 3, Fin 0, Some (FloatArray [1, 1 / 2]), 14) \<and>
   count_spec (t_min_of (FloatArray [0, 4])) (t_max_of (FloatArray [0, 4]))
     [- 1, 1 / 2, 1 / 4] [- 1, 1, 2, 5] 1 = 14 \<and>
   length (filter (\<lambda>d. 0 \<le> d) [- 1, 1 / 2, 1 / 4 :: real]) = 2 \<and>
   length (t1_grid_of 0 4 1 1) = 4 \<and> length (t1_grid_of 0 4 1 2) = 3 \<and>
   (14 :: nat) = 2 * 4 + 2 * 3"
proof -
  have e: "fit_transit (FloatArray [0, 4]) [1, 1 / 2] (Scalar 1) [- 1, 1 / 2, 1 / 4]
      [- 1, 1, 2, 5] 1 =
     Inr (Some (1 / 2), Some 1, Some 3, Fin 0, Some (FloatArray [1, 1 / 2]), 14)"
    by code_simp
  have g1: "length (t1_grid_of 0 4 1 1) = 4" by code_simp
  have g2: "length (t1_grid_of 0 4 1 2) = 3" by code_simp
  show ?thesis
    using fit_transit_count [of "FloatArray [0, 4]" "[1, 1 / 2]" "Scalar 1" 1
        "[- 1, 1 / 2, 1 / 4]" "[- 1, 1, 2, 5]"] e g1 g2
    by simp
qed

text \<open>
  Claim C5 as stated fails on an empty time grid: \<open>time.min()\<close> raises before any
  duration is looked at, also when every duration of \<open>T_grid\<close> is \<open>\<le> 0\<close>.
\<close>

theorem fit_transit_empty_time_raises:
  "(- 1 :: real) \<le> 0 \<and> (0 :: real) \<le> 0 \<and>
   fit_transit (FloatArray []) [] (Scalar 1) [1 / 2] [- 1, 0] 1 = Inl EmptyReduction \<and>
   fit_transit (FloatArray []) [] (Scalar 1) [1 / 2] [- 1, 0] 1 \<noteq>
     Inr (None, None, None, PInf, None, 0)"
  by (simp add: fit_transit_empty)

text \<open>
  Claim C5, amended. For a non-empty time grid: if every duration of \<open>T_grid\<close> is
  \<open>\<le> 0\<close> or does not fit the observed window (\<open>t_max - T > t_min\<close> fails), then
  \<open>fit_transit\<close> raises no exception and returns exactly
  \<open>(None, None, None, +infinity, None, 0)\<close>, whatever the other arguments are.
\<close>

theorem fit_transit_no_feasible_duration:
  assumes "array_values time \<noteq> []"
    and "\<forall>T \<in> set T_grid. T \<le> 0 \<or> \<not> t_max_of time - T > t_min_of time"
  shows "fit_transit time flux sigma d_grid T_grid t1_step = Inr (None, None, None, PInf, None, 0)"
proof -
  from assms(2) have "\<forall>T \<in> set T_grid. T \<le> 0 \<or> t_max_of time - T \<le> t_min_of time"
    by (simp add: not_less)
  from T_loop_infeasible [OF this] show ?thesis
    by (simp add: fit_transit_nonempty [OF assms(1)] init_state_def)
qed

theorem fit_transit_no_feasible_duration_witness:
  "fit_transit (FloatArray [0, 4]) [1, 1 / 2] (Scalar 1) [1 / 2] [- 1, 0, 4, 5] 1 =
     Inr (None, None, None, PInf, None, 0)"
proof -
  have h1: "array_values (FloatArray [0, 4]) \<noteq> []" by simp
  have h2: "\<forall>T \<in> set [- 1, 0, 4, 5 :: real].
              T \<le> 0 \<or> \<not> t_max_of (FloatArray [0, 4]) - T > t_min_of (FloatArray [0, 4])"
    by (simp add: t_max_of_def t_min_of_def)
  show ?thesis using fit_transit_no_feasible_duration [OF h1 h2] by simp
qed




text \<open>
  Claim C9. When \<open>fit_transit\<close> returns a found result, its components belong
  together: \<open>best_T\<close> and \<open>best_t1\<close> are found as well, \<open>best_model\<close> is
  \<open>create_flux_model(time, best_T, best_d, best_t1)\<close> and \<open>best_chi2\<close> is what
  \<open>chi2_test(flux, best_model, sigma)\<close> returns.
\<close>

theorem fit_transit_consistent:
  assumes "fit_transit time flux sigma d_grid T_grid t1_step = Inr (Some bd, bT, bt1, chi2, m, n)"
  shows "\<exists>T t1. bT = Some T \<and> bt1 = Some t1 \<and>
           m = Some (create_flux_model time T bd t1) \<and>
           chi2_test flux (create_flux_model time T bd t1) sigma = Inr chi2"
proof -
  from fit_transit_returns [OF assms] obtain st where
    v: "visit_all time flux sigma
          (candidates (t_min_of time) (t_max_of time) d_grid T_grid t1_step) init_state = Inr st"
    and b: "best_d st = Some bd" "best_T st = bT" "best_t1 st = bt1" "best_chi2 st = chi2"
      "best_model st = m"
    by blast
  from visit_all_best [OF v] b(1) obtain c where bc: "best_is time flux sigma c st"
    by (auto simp: same_best_def init_state_def)
  obtain T d t1 where [simp]: "c = (T, d, t1)" by (cases c)
  from bc b show ?thesis by (simp add: best_is_def)
qed

theorem fit_transit_consistent_witness:
  "fit_transit (FloatArray [0, 4]) [3, 7] (PerPoint [2, 5]) [- 1, 1 / 2, 1 / 4] [- 1, 1, 2, 5] 1 =
     Inr (Some (1 / 2), Some 1, Some 1, Fin (61 / 25), Some (FloatArray [1, 1]), 14) \<and>
   create_flux_model (FloatArray [0, 4]) 1 (1 / 2) 1 = FloatArray [1, 1] \<and>
   chi2_test [3, 7] (FloatArray [1, 1]) (PerPoint [2, 5]) = Inr (Fin (61 / 25))"
proof -
  have e: "fit_transit (FloatArray [0, 4]) [3, 7] (PerPoint [2, 5]) [- 1, 1 / 2, 1 / 4]
      [- 1, 1, 2, 5] 1 =
     Inr (Some (1 / 2), Some 1, Some 1, Fin (61 / 25), Some (FloatArray [1, 1]), 14)"
    by code_simp
  have m: "create_flux_model (FloatArray [0, 4]) 1 (1 / 2) 1 = FloatArray [1, 1]" by code_simp
  have c: "chi2_test [3, 7] (FloatArray [1, 1]) (PerPoint [2, 5]) = Inr (Fin (61 / 25))"
    by code_simp
  show ?thesis using fit_transit_consistent [OF e] e m c by simp
qed

text \<open>
  Claim C10. The returned count does not depend on the flux or on the uncertainty: two
  calls with the same time grid, \<open>d_grid\<close>, \<open>T_grid\<close> and \<open>t1_step\<close> that both return
  give the same count. And both do return, for a non-empty time grid, a non-zero step
  and data that fit the grid in length.
\<close>

theorem fit_transit_count_independent:
  "(array_values time \<noteq> [] \<and> t1_step \<noteq> 0 \<and>
    length flux = length (array_values time) \<and> sigma_shape sigma (length (array_values time)) \<and>
    length flux' = length (array_values time) \<and>
    sigma_shape sigma' (length (array_values time)) \<longrightarrow>
      (\<exists>r r'. fit_transit time flux sigma d_grid T_grid t1_step = Inr r \<and>
               fit_transit time flux' sigma' d_grid T_grid t1_step = Inr r')) \<and>
   (\<forall>bd bT bt1 chi2 m n bd' bT' bt1' chi2' m' n'.
      fit_transit time flux sigma d_grid T_grid t1_step = Inr (bd, bT, bt1, chi2, m, n) \<and>
      fit_transit time flux' sigma' d_grid T_grid t1_step = Inr (bd', bT', bt1', chi2', m', n') \<longrightarrow>
      n = n')"
proof (intro conjI allI impI)
  assume "array_values time \<noteq> [] \<and> t1_step \<noteq> 0 \<and>
    length flux = length (array_values time) \<and> sigma_shape sigma (length (array_values time)) \<and>
    length flux' = length (array_values time) \<and>
    sigma_shape sigma' (length (array_values time))"
  then show "\<exists>r r'. fit_transit time flux sigma d_grid T_grid t1_step = Inr r \<and>
               fit_transit time flux' sigma' d_grid T_grid t1_step = Inr r'"
    using fit_transit_total [of time flux sigma t1_step d_grid T_grid]
      fit_transit_total [of time flux' sigma' t1_step d_grid T_grid] by blast
next
  fix bd bT bt1 chi2 m n bd' bT' bt1' chi2' m' n'
  assume a: "fit_transit time flux sigma d_grid T_grid t1_step = Inr (bd, bT, bt1, chi2, m, n) \<and>
      fit_transit time flux' sigma' d_grid T_grid t1_step = Inr (bd', bT', bt1', chi2', m', n')"
  from a fit_transit_returns [of time flux sigma d_grid T_grid t1_step bd bT bt1 chi2 m n]
  obtain st where v: "visit_all time flux sigma
          (candidates (t_min_of time) (t_max_of time) d_grid T_grid t1_step) init_state = Inr st"
    and n: "count st = n" by blast
  from a fit_transit_returns [of time flux' sigma' d_grid T_grid t1_step bd' bT' bt1' chi2' m' n']
  obtain st' where v': "visit_all time flux' sigma'
          (candidates (t_min_of time) (t_max_of time) d_grid T_grid t1_step) init_state = Inr st'"
    and n': "count st' = n'" by blast
  from visit_all_count [OF v] visit_all_count [OF v'] n n' show "n = n'" by simp
qed

theorem fit_transit_count_independent_witness:
  "fit_transit (FloatArray [0, 4]) [1, 1 / 2] (Scalar 1) [- 1, 1 / 2, 1 / 4] [- 1, 1, 2, 5] 1 =
     Inr (Some (1 / 2), Some 1, Some 3, Fin 0, Some (FloatArray [1, 1 / 2]), 14) \<and>
   fit_transit (FloatArray [0, 4]) [3, 7] (PerPoint [2, 5]) [- 1, 1 / 2, 1 / 4] [- 1, 1, 2, 5] 1 =
     Inr (Some (1 / 2), Some 1, Some 1, Fin (61 / 25), Some (FloatArray [1, 1]), 14)"
proof -
  have e: "fit_transit (FloatArray [0, 4]) [1, 1 / 2] (Scalar 1) [- 1, 1 / 2, 1 / 4]
      [- 1, 1, 2, 5] 1 =
     Inr (Some (1 / 2), Some 1, Some 3, Fin 0, Some (FloatArray [1, 1 / 2]), 14)"
    by code_simp
  have e': "fit_transit (FloatArray [0, 4]) [3, 7] (PerPoint [2, 5]) [- 1, 1 / 2, 1 / 4]
      [- 1, 1, 2, 5] 1 =
     Inr (Some (1 / 2), Some 1, Some 1, Fin (61 / 25), Some (FloatArray [1, 1]), 14)"
    by code_simp
  show ?thesis
    using fit_transit_count_independent [of "FloatArray [0, 4]" 1 "[1, 1 / 2]" "Scalar 1"
        "[3, 7]" "PerPoint [2, 5]" "[- 1, 1 / 2, 1 / 4]" "[- 1, 1, 2, 5]"] e e'
    by simp
qed

end
